theory Spec2Isabelle
  imports Complex_Main "HOL-Library.Multiset"
begin

section \<open>The addition dataset of \<open>play_math.ipynb\<close>\<close>

text \<open>
  The notebook defines one class, \<open>AdditionDataset\<close>, with a constructor, a length and an
  item query. Python integers are unbounded and are modelled by \<open>nat\<close> (the digit width,
  sizes) and \<open>int\<close> (array elements, positions, tokens). Every \<open>raise\<close> of the Python is
  a result \<open>Inl e\<close> of a sum type.

  The digit width of a dataset is a natural number: with a negative \<open>ndigit\<close> the Python
  computes \<open>10**ndigit\<close> as a float and no dataset is constructed; the constructor on any
  integer width is a definition of its own.

  The entries of the index array are numpy 64-bit integers. An array holding a permutation
  of \<open>[0, num)\<close> exists only when \<open>num \<le> 2^63\<close>, and then the operands
  \<open>a, b < 10^ndigit\<close> and the sum \<open>c < 2 * 10^ndigit\<close> stay far below \<open>2^63\<close>, so no
  arithmetic of \<open>__getitem__\<close> wraps; the entries are modelled as \<open>int\<close>.
\<close>

datatype py_error = IndexError | ValueError | OverflowError | MemoryError

subsection \<open>The numerical library\<close>

text \<open>
  \<open>numpy\<close> is not part of the repository. The two calls the constructor makes,
  \<open>np.random.RandomState(seed)\<close> and \<open>r.permutation(num)\<close>, are parameters of the model:
  a generator state of some type \<open>'g\<close>, created from a seed, and a permutation call that
  returns an array (or raises) and the advanced generator state.
\<close>

record 'g numpy_random =
  RandomState :: "int \<Rightarrow> 'g"
  permutation :: "'g \<Rightarrow> nat \<Rightarrow> (py_error + int list) \<times> 'g"

text \<open>
  What the library documents for \<open>permutation(num)\<close>: a shuffled \<open>arange(num)\<close>, whenever
  the call returns. It is a hypothesis of the theorems that need it.
\<close>

definition is_permutation_of_range :: "int list \<Rightarrow> nat \<Rightarrow> bool" where
  "is_permutation_of_range p num = (mset p = mset (map int [0..<num]))"

definition permutation_contract :: "'g numpy_random \<Rightarrow> bool" where
  "permutation_contract np =
     (\<forall>g num. case fst (permutation np g num) of
                 Inl e \<Rightarrow> True
               | Inr p \<Rightarrow> is_permutation_of_range p num)"

subsection \<open>\<open>int(num * 0.2)\<close>: the double-precision product\<close>

text \<open>
  \<open>num * 0.2\<close> converts the Python integer \<open>num\<close> to a double, multiplies by the double
  nearest to \<open>0.2\<close> and rounds the exact product to a double; \<open>int\<close> then truncates.
  All values are non-negative and normal, so a double is a natural number of at most 53
  significant bits times a power of two.
\<close>

fun bit_length :: "nat \<Rightarrow> nat" where
  "bit_length n = (if n = 0 then 0 else Suc (bit_length (n div 2)))"

declare bit_length.simps [simp del]

definition round53 :: "nat \<Rightarrow> nat" where
  \<comment> \<open>round to 53 significant bits, to nearest, ties to even\<close>
  "round53 N =
     (if bit_length N \<le> 53 then N
      else let s = bit_length N - 53;
               q = N div 2 ^ s;
               r = N mod 2 ^ s;
               h = 2 ^ (s - 1)
           in (if r > h \<or> (r = h \<and> odd q) then q + 1 else q) * 2 ^ s)"

definition int_to_float :: "nat \<Rightarrow> py_error + nat" where
  \<comment> \<open>the conversion raises OverflowError beyond the largest double\<close>
  "int_to_float N = (if round53 N \<ge> 2 ^ 1024 then Inl OverflowError else Inr (round53 N))"

definition float_0_2 :: nat where
  \<comment> \<open>the double written \<open>0.2\<close> is \<open>float_0_2 / 2^55\<close>\<close>
  "float_0_2 = 7205759403792794"

definition mul_0_2 :: "nat \<Rightarrow> nat" where
  \<comment> \<open>the double \<open>F * 0.2\<close>, as a multiple of \<open>2^-55\<close>\<close>
  "mul_0_2 F = round53 (F * float_0_2)"

definition float_to_int :: "nat \<Rightarrow> nat" where
  \<comment> \<open>\<open>int(x)\<close> of a non-negative double given as a multiple of \<open>2^-55\<close>\<close>
  "float_to_int x = x div 2 ^ 55"

subsection \<open>The class\<close>

record AdditionDataset =
  split :: string
  ndigit :: nat
  vocab_size :: nat
  block_size :: nat
  ixes :: "int list"

definition num_test :: "nat \<Rightarrow> py_error + nat" where
  \<comment> \<open>\<open>min(int(num*0.2), 1000)\<close>\<close>
  "num_test num =
     (case int_to_float num of
        Inl e \<Rightarrow> Inl e
      | Inr F \<Rightarrow> Inr (min (float_to_int (mul_0_2 F)) 1000))"

definition AdditionDataset_init ::
  "'g numpy_random \<Rightarrow> nat \<Rightarrow> string \<Rightarrow> py_error + AdditionDataset" where
  "AdditionDataset_init np n sp =
     (let num = (10 ^ n) ^ 2;
          r = RandomState np 1337
      in case fst (permutation np r num) of
           Inl e \<Rightarrow> Inl e
         | Inr perm \<Rightarrow>
             (case num_test num of
                Inl e \<Rightarrow> Inl e
              | Inr t \<Rightarrow>
                  Inr \<lparr> split = sp, ndigit = n, vocab_size = 10,
                        block_size = n + n + n + 1 - 1,
                        ixes = (if sp = ''test'' then take t perm else drop t perm) \<rparr>))"

definition AdditionDataset_len :: "AdditionDataset \<Rightarrow> nat" where
  "AdditionDataset_len self = length (ixes self)"

subsection \<open>The constructor and the generator objects\<close>

text \<open>
  \<open>np.random.RandomState(1337)\<close> allocates a new generator object, and
  \<open>r.permutation(num)\<close> advances the state of the object \<open>r\<close> in place. The generator
  objects of the process (the module's global generator, every generator made before) are
  a heap: a list of states, an object's address being its position. The constructor is a
  step on this heap; the address it passes to \<open>permutation\<close> is the one it has just
  allocated.
\<close>

definition new_RandomState :: "'g numpy_random \<Rightarrow> int \<Rightarrow> 'g list \<Rightarrow> nat \<times> 'g list" where
  "new_RandomState np seed heap = (length heap, heap @ [RandomState np seed])"

definition call_permutation ::
  "'g numpy_random \<Rightarrow> nat \<Rightarrow> nat \<Rightarrow> 'g list \<Rightarrow> (py_error + int list) \<times> 'g list" where
  "call_permutation np r num heap =
     (case permutation np (heap ! r) num of (res, g) \<Rightarrow> (res, heap[r := g]))"

definition AdditionDataset_init_heap ::
  "'g numpy_random \<Rightarrow> nat \<Rightarrow> string \<Rightarrow> 'g list
     \<Rightarrow> (py_error + AdditionDataset) \<times> 'g list" where
  "AdditionDataset_init_heap np n sp heap =
     (let num = (10 ^ n) ^ 2
      in case new_RandomState np 1337 heap of
           (r, heap1) \<Rightarrow>
             (case call_permutation np r num heap1 of
                (res, heap2) \<Rightarrow>
                  (case res of
                     Inl e \<Rightarrow> Inl e
                   | Inr perm \<Rightarrow>
                       (case num_test num of
                          Inl e \<Rightarrow> Inl e
                        | Inr t \<Rightarrow>
                            Inr \<lparr> split = sp, ndigit = n, vocab_size = 10,
                                  block_size = n + n + n + 1 - 1,
                                  ixes = (if sp = ''test'' then take t perm
                                          else drop t perm) \<rparr>),
                   heap2)))"

subsection \<open>The constructor on any integer width\<close>


subsection \<open>Rendering an addition problem\<close>

text \<open>
  \<open>'%0wd' % v\<close> writes the decimal digits of \<open>v\<close>, with a sign when \<open>v\<close> is negative, and
  fills with zeros on the left up to the width \<open>w\<close>; it never truncates.
\<close>

function dec_digits :: "nat \<Rightarrow> nat list" where
  "dec_digits v = (if v < 10 then [v] else dec_digits (v div 10) @ [v mod 10])"
  by pat_completeness auto
termination
  by (relation "measure id") auto

declare dec_digits.simps [simp del]

definition digit_char :: "nat \<Rightarrow> char" where
  "digit_char d = char_of (48 + d)"

definition format_0d :: "nat \<Rightarrow> int \<Rightarrow> string" where
  "format_0d w v =
     (if v < 0
      then (let s = map digit_char (dec_digits (nat (- v)))
            in CHR ''-'' # replicate (w - 1 - length s) CHR ''0'' @ s)
      else (let s = map digit_char (dec_digits (nat v))
            in replicate (w - length s) CHR ''0'' @ s))"

definition render :: "nat \<Rightarrow> int \<Rightarrow> string" where
  \<comment> \<open>lines 80 to 84 of the notebook: the problem of index \<open>idx\<close> as a string\<close>
  "render n idx =
     (let nd = 10 ^ n;
          a = idx div nd;
          b = idx mod nd;
          c = a + b
      in format_0d n a @ format_0d n b @ format_0d (n + 1) c)"

text \<open>\<open>int(s)\<close> of a one-character string raises ValueError unless it is a digit.\<close>

definition int_of_char :: "char \<Rightarrow> py_error + int" where
  "int_of_char ch =
     (let c = (of_char ch :: nat)
      in if 48 \<le> c \<and> c \<le> 57 then Inr (int c - 48) else Inl ValueError)"

fun ints_of_string :: "string \<Rightarrow> py_error + int list" where
  \<comment> \<open>\<open>[int(s) for s in render]\<close>\<close>
  "ints_of_string [] = Inr []"
| "ints_of_string (s # ss) =
     (case int_of_char s of
        Inl e \<Rightarrow> Inl e
      | Inr d \<Rightarrow> (case ints_of_string ss of Inl e \<Rightarrow> Inl e | Inr ds \<Rightarrow> Inr (d # ds)))"

subsection \<open>Indexing and slicing\<close>

text \<open>
  An array indexed by a Python integer counts a negative index from the end and raises
  outside \<open>[-size, size)\<close>: IndexError, except for an index in \<open>[2^63, 2^64)\<close>, which the
  library reads as an unsigned 64-bit value and cannot convert to a signed index
  (OverflowError). An array has fewer than \<open>2^63\<close> entries, so such an index is never in
  range, and the conversion error is a case of the out-of-range branch. The stop of a
  slice \<open>y[:m]\<close> is clipped to the length, a negative one counted from the end.
\<close>

definition array_index :: "int list \<Rightarrow> int \<Rightarrow> py_error + int" where
  "array_index xs i =
     (let n = int (length xs);
          j = (if i < 0 then i + n else i)
      in if 0 \<le> j \<and> j < n then Inr (xs ! nat j)
         else if 2 ^ 63 \<le> i \<and> i < 2 ^ 64 then Inl OverflowError
         else Inl IndexError)"

definition slice_stop :: "int \<Rightarrow> nat \<Rightarrow> nat" where
  "slice_stop m len = (if m < 0 then nat (int len + m) else min (nat m) len)"

definition fill_prefix :: "int list \<Rightarrow> int \<Rightarrow> int \<Rightarrow> int list" where
  \<comment> \<open>\<open>y[:m] = v\<close>\<close>
  "fill_prefix y m v =
     replicate (slice_stop m (length y)) v @ drop (slice_stop m (length y)) y"

definition AdditionDataset_getitem ::
  "AdditionDataset \<Rightarrow> int \<Rightarrow> py_error + (int list \<times> int list)" where
  "AdditionDataset_getitem self k =
     (case array_index (ixes self) k of
        Inl e \<Rightarrow> Inl e
      | Inr idx \<Rightarrow>
          (case ints_of_string (render (ndigit self) idx) of
             Inl e \<Rightarrow> Inl e
           | Inr dix \<Rightarrow>
               let x = butlast dix;
                   y = drop 1 dix
               in Inr (x, fill_prefix y (int (ndigit self) * 2 - 1) (- 100))))"

subsection \<open>Reading tokens back\<close>

text \<open>
  The notebook's \<open>predict\<close> reads a number from digit tokens with
  \<open>int(''.join(str(i) for i in tokens))\<close>: the tokens are its decimal digits, most
  significant first.
\<close>

definition int_of_tokens :: "int list \<Rightarrow> int" where
  "int_of_tokens ts = foldl (\<lambda>acc d. 10 * acc + d) 0 ts"

text \<open>
  The zero-padded rendering of width \<open>w\<close>, as the specification words it: the token at
  position \<open>i\<close> is the decimal digit of weight \<open>10^(w - 1 - i)\<close>.
\<close>

definition zero_padded :: "nat \<Rightarrow> int \<Rightarrow> int list" where
  "zero_padded w v = map (\<lambda>i. (v div 10 ^ (w - 1 - i)) mod 10) [0..<w]"

definition last_tokens :: "nat \<Rightarrow> 'a list \<Rightarrow> 'a list" where
  "last_tokens m xs = drop (length xs - m) xs"

subsection \<open>A generator to run the model on\<close>

text \<open>
  A stand-in for the library's generator, used to evaluate the model on concrete inputs:
  its state counts the calls, and its shuffle of \<open>arange(num)\<close> is the reversal.
\<close>

definition reversing_numpy :: "int numpy_random" where
  "reversing_numpy =
     \<lparr> RandomState = (\<lambda>seed. seed),
       permutation = (\<lambda>g num. (Inr (rev (map int [0..<num])), g + 1)) \<rparr>"

text \<open>The two splits it gives for one-digit operands.\<close>

definition sample_test :: AdditionDataset where
  "sample_test = \<lparr> split = ''test'', ndigit = 1, vocab_size = 10, block_size = 3,
                    ixes = rev (map int [80..<100]) \<rparr>"

definition sample_train :: AdditionDataset where
  "sample_train = \<lparr> split = ''train'', ndigit = 1, vocab_size = 10, block_size = 3,
                     ixes = rev (map int [0..<80]) \<rparr>"

text \<open>Its train split for two-digit operands.\<close>

definition sample_train2 :: AdditionDataset where
  "sample_train2 = \<lparr> split = ''train'', ndigit = 2, vocab_size = 10, block_size = 6,
                      ixes = rev (map int [0..<9000]) \<rparr>"

section \<open>Auxiliary facts\<close>


subsection \<open>Doubles\<close>

lemma float_0_2_nearest:
  \<comment> \<open>a 53-bit significand, within \<open>2/5\<close> of a unit in the last place of \<open>1/5\<close>\<close>
  "2 ^ 52 \<le> float_0_2 \<and> float_0_2 < 2 ^ 53 \<and> 5 * float_0_2 = 2 ^ 55 + 2"
  by (simp add: float_0_2_def)

lemma bit_length_bounds: "0 < N \<Longrightarrow> 2 ^ (bit_length N - 1) \<le> N \<and> N < 2 ^ bit_length N"
proof (induction N rule: bit_length.induct)
  case (1 n)
  show ?case
  proof (cases "n div 2 = 0")
    case True
    with 1 have "n = 1" by (simp add: div_eq_0_iff)
    then show ?thesis by (simp add: bit_length.simps[of "Suc 0"] bit_length.simps[of 0])
  next
    case False
    then have pos: "0 < n div 2" by simp
    from 1 have ih: "2 ^ (bit_length (n div 2) - 1) \<le> n div 2 \<and> n div 2 < 2 ^ bit_length (n div 2)"
      using pos by simp
    have bl: "bit_length n = Suc (bit_length (n div 2))" using 1(2) by (simp add: bit_length.simps[of n])
    have "bit_length (n div 2) > 0" using pos by (simp add: bit_length.simps[of "n div 2"])
    then obtain m where m: "bit_length (n div 2) = Suc m" by (cases "bit_length (n div 2)") auto
    show ?thesis using ih bl m by auto
  qed
qed

lemma round53_bounds: "3 * N \<le> 4 * round53 N \<and> 4 * round53 N \<le> 5 * N"
proof (cases "bit_length N \<le> 53")
  case True
  then show ?thesis by (simp add: round53_def)
next
  case False
  define s where "s = bit_length N - 53"
  define q where "q = N div 2 ^ s"
  have Npos: "0 < N" using False by (cases "N = 0") (simp_all add: bit_length.simps[of 0])
  have e: "bit_length N - 1 = s + 52" using False by (simp add: s_def)
  from bit_length_bounds[OF Npos] have "2 ^ (bit_length N - 1) \<le> N" by blast
  then have "2 ^ (s + 52) \<le> N" by (simp only: e)
  then have big: "(2::nat) ^ 52 * 2 ^ s \<le> N" by (simp add: power_add mult.commute)
  have "(4::nat) * 2 ^ s \<le> 2 ^ 52 * 2 ^ s" by simp
  with big have four: "4 * 2 ^ s \<le> N" by linarith
  have lo: "q * 2 ^ s \<le> N" by (simp add: q_def)
  have "N mod 2 ^ s < 2 ^ s" by simp
  moreover have "N = q * 2 ^ s + N mod 2 ^ s"
    unfolding q_def by (rule div_mult_mod_eq[symmetric])
  ultimately have hi: "N < q * 2 ^ s + 2 ^ s" by linarith
  have "round53 N = q * 2 ^ s \<or> round53 N = (q + 1) * 2 ^ s"
    using False by (simp add: round53_def Let_def s_def[symmetric] q_def[symmetric])
  then show ?thesis
  proof
    assume "round53 N = q * 2 ^ s"
    with lo hi four show ?thesis by linarith
  next
    assume r: "round53 N = (q + 1) * 2 ^ s"
    have "(q + 1) * 2 ^ s = q * 2 ^ s + 2 ^ s" by (simp add: algebra_simps)
    with r lo hi four show ?thesis by linarith
  qed
qed

lemma num_test_1: "num_test (Suc 0) = Inr 0"
  by (simp add: num_test_def int_to_float_def round53_def mul_0_2_def float_0_2_def
      float_to_int_def bit_length.simps Let_def)

lemma num_test_100: "num_test 100 = Inr 20"
  by (simp add: num_test_def int_to_float_def round53_def mul_0_2_def float_0_2_def
      float_to_int_def bit_length.simps Let_def)

lemma num_test_large:
  assumes "10000 \<le> num" "num_test num = Inr t"
  shows "t = 1000"
proof -
  from assms(2) have t: "t = min (float_to_int (mul_0_2 (round53 num))) 1000"
    by (auto simp: num_test_def int_to_float_def split: if_splits)
  have a: "3 * num \<le> 4 * round53 num" using round53_bounds[of num] by simp
  have b: "3 * (round53 num * float_0_2) \<le> 4 * mul_0_2 (round53 num)"
    using round53_bounds[of "round53 num * float_0_2"] by (simp add: mul_0_2_def)
  have "3 * 10000 \<le> 4 * round53 num" using a assms(1) by linarith
  then have "(3 * 10000) * float_0_2 \<le> (4 * round53 num) * float_0_2"
    by (rule mult_le_mono1)
  then have "3 * 10000 * float_0_2 \<le> 4 * (round53 num * float_0_2)"
    by (simp only: mult.assoc)
  with b have "9 * 10000 * float_0_2 \<le> 16 * mul_0_2 (round53 num)" by linarith
  then have "1000 * 2 ^ 55 \<le> mul_0_2 (round53 num)"
    by (simp add: float_0_2_def)
  then have "1000 \<le> float_to_int (mul_0_2 (round53 num))"
    unfolding float_to_int_def
    by (metis div_le_mono nonzero_mult_div_cancel_right power_eq_0_iff zero_neq_numeral)
  with t show ?thesis by simp
qed

lemma num_test_returns:
  assumes "num \<le> 10 ^ 308"
  shows "num_test num = Inr (min (float_to_int (mul_0_2 (round53 num))) 1000)"
proof -
  have "4 * round53 num \<le> 5 * num" using round53_bounds[of num] by simp
  with assms have "4 * round53 num \<le> 5 * 10 ^ 308" by linarith
  then have "round53 num < 2 ^ 1024" by simp
  then show ?thesis by (simp add: num_test_def int_to_float_def)
qed


subsection \<open>Digits\<close>

lemma dec_digits_lt10: "d \<in> set (dec_digits v) \<Longrightarrow> d < 10"
proof (induction v rule: dec_digits.induct)
  case (1 v)
  show ?case
  proof (cases "v < 10")
    case True
    with 1(2) show ?thesis by (simp add: dec_digits.simps[of v])
  next
    case False
    with 1 show ?thesis by (auto simp: dec_digits.simps[of v])
  qed
qed

lemma int_of_char_digit: "d < 10 \<Longrightarrow> int_of_char (digit_char d) = Inr (int d)"
  by (simp add: int_of_char_def digit_char_def)

lemma ints_of_string_append:
  "ints_of_string (s @ t) =
     (case ints_of_string s of Inl e \<Rightarrow> Inl e
      | Inr a \<Rightarrow> (case ints_of_string t of Inl e \<Rightarrow> Inl e | Inr b \<Rightarrow> Inr (a @ b)))"
  by (induction s) (auto split: sum.splits)

lemma ints_of_string_digits:
  "(\<And>d. d \<in> set ds \<Longrightarrow> d < 10) \<Longrightarrow> ints_of_string (map digit_char ds) = Inr (map int ds)"
  by (induction ds) (simp_all add: int_of_char_digit)

lemma ints_of_string_zeros: "ints_of_string (replicate k CHR ''0'') = Inr (replicate k 0)"
  by (induction k) (simp_all add: int_of_char_def)

lemma length_zero_padded: "length (zero_padded w v) = w"
  by (simp add: zero_padded_def)

lemma zero_padded_Suc: "zero_padded (Suc w) v = zero_padded w (v div 10) @ [v mod 10]"
proof -
  have "v div 10 ^ (w - i) = (v div 10) div 10 ^ (w - 1 - i)" if "i < w" for i
  proof -
    from that have "w - i = Suc (w - 1 - i)" by simp
    then show ?thesis by (simp add: zdiv_zmult2_eq)
  qed
  then show ?thesis by (simp add: zero_padded_def)
qed

lemma zero_padded_zero: "zero_padded w 0 = replicate w 0"
  by (simp add: zero_padded_def map_replicate_const)

lemma zero_padded_digit: "d \<in> set (zero_padded w v) \<Longrightarrow> 0 \<le> d \<and> d \<le> 9"
  by (auto simp: zero_padded_def)

lemma dec_digits_zero_padded:
  "v < 10 ^ w \<Longrightarrow> 0 < w \<Longrightarrow>
   replicate (w - length (dec_digits v)) 0 @ map int (dec_digits v) = zero_padded w (int v)
   \<and> length (dec_digits v) \<le> w"
proof (induction w arbitrary: v)
  case 0
  then show ?case by simp
next
  case (Suc w)
  show ?case
  proof (cases "v < 10")
    case True
    then have "dec_digits v = [v]" by (simp add: dec_digits.simps[of v])
    with True show ?thesis by (simp add: zero_padded_Suc zero_padded_zero)
  next
    case False
    then have dd: "dec_digits v = dec_digits (v div 10) @ [v mod 10]"
      by (simp add: dec_digits.simps[of v])
    from False Suc.prems have wpos: "0 < w" by (cases w) auto
    from Suc.prems have "v div 10 < 10 ^ w" by (simp add: less_mult_imp_div_less mult.commute)
    from Suc.IH[OF this wpos] show ?thesis
      by (simp add: dd zero_padded_Suc zdiv_int zmod_int)
  qed
qed

lemma ints_of_format_0d:
  assumes "0 \<le> v" "v < 10 ^ w" "0 < w"
  shows "ints_of_string (format_0d w v) = Inr (zero_padded w v)"
proof -
  from assms have lt: "nat v < 10 ^ w"
    by (simp add: nat_less_iff)
  from dec_digits_zero_padded[OF lt assms(3)] assms(1)
  have pad: "replicate (w - length (dec_digits (nat v))) 0 @ map int (dec_digits (nat v))
             = zero_padded w v"
    by simp
  have "ints_of_string (format_0d w v) =
        Inr (replicate (w - length (dec_digits (nat v))) 0 @ map int (dec_digits (nat v)))"
    using assms(1)
    by (simp add: format_0d_def Let_def ints_of_string_append ints_of_string_zeros
        ints_of_string_digits dec_digits_lt10)
  then show ?thesis by (simp only: pad)
qed

lemma int_of_tokens_snoc: "int_of_tokens (ts @ [d]) = 10 * int_of_tokens ts + d"
  by (simp add: int_of_tokens_def)

lemma int_of_tokens_zero_padded: "int_of_tokens (zero_padded w v) = v mod 10 ^ w"
proof (induction w arbitrary: v)
  case 0
  then show ?case by (simp add: zero_padded_def int_of_tokens_def)
next
  case (Suc w)
  have "v mod (10 * 10 ^ w) = 10 * (v div 10 mod 10 ^ w) + v mod 10"
    by (simp add: zmod_zmult2_eq)
  then show ?case
    by (simp add: zero_padded_Suc int_of_tokens_snoc Suc)
qed

subsection \<open>The operands of an index\<close>

lemma int_div_less:
  fixes idx :: int
  assumes "0 < b" "idx < a * b"
  shows "idx div b < a"
proof (rule ccontr)
  assume "\<not> idx div b < a"
  then have "a \<le> idx div b" by simp
  then have "a * b \<le> (idx div b) * b" using assms(1) by (simp add: mult_right_mono)
  moreover have "0 \<le> idx mod b" using assms(1) by simp
  moreover have "(idx div b) * b + idx mod b = idx" by (rule div_mult_mod_eq)
  ultimately show False using assms(2) by linarith
qed

lemma operands_bounds:
  fixes idx :: int
  assumes "0 \<le> idx" "idx < 100 ^ n"
  shows "0 \<le> idx div 10 ^ n" "idx div 10 ^ n < 10 ^ n"
    "0 \<le> idx mod 10 ^ n" "idx mod 10 ^ n < 10 ^ n"
    "idx div 10 ^ n + idx mod 10 ^ n < 10 ^ (n + 1)"
proof -
  have sq: "(100::int) ^ n = 10 ^ n * 10 ^ n"
    by (simp add: power_mult_distrib[symmetric])
  show a0: "0 \<le> idx div 10 ^ n" using assms(1) by (simp add: pos_imp_zdiv_nonneg_iff)
  show a1: "idx div 10 ^ n < 10 ^ n"
    using assms(2) by (intro int_div_less) (simp_all add: sq)
  show b0: "0 \<le> idx mod 10 ^ n" by simp
  show b1: "idx mod 10 ^ n < 10 ^ n" by simp
  have "(10::int) ^ (n + 1) = 10 * 10 ^ n" by simp
  moreover have "(0::int) < 10 ^ n" by simp
  ultimately show "idx div 10 ^ n + idx mod 10 ^ n < 10 ^ (n + 1)"
    using a1 b1 by linarith
qed

lemma render_tokens:
  assumes "0 \<le> idx" "idx < 100 ^ n" "0 < n"
  shows "ints_of_string (render n idx) =
         Inr (zero_padded n (idx div 10 ^ n) @ zero_padded n (idx mod 10 ^ n)
              @ zero_padded (n + 1) (idx div 10 ^ n + idx mod 10 ^ n))"
proof -
  note ob = operands_bounds[OF assms(1,2)]
  have c0: "0 \<le> idx div 10 ^ n + idx mod 10 ^ n" using ob(1,3) by linarith
  have a: "ints_of_string (format_0d n (idx div 10 ^ n)) = Inr (zero_padded n (idx div 10 ^ n))"
    by (rule ints_of_format_0d[OF ob(1) ob(2) assms(3)])
  have b: "ints_of_string (format_0d n (idx mod 10 ^ n)) = Inr (zero_padded n (idx mod 10 ^ n))"
    by (rule ints_of_format_0d[OF ob(3) ob(4) assms(3)])
  have c: "ints_of_string (format_0d (n + 1) (idx div 10 ^ n + idx mod 10 ^ n))
           = Inr (zero_padded (n + 1) (idx div 10 ^ n + idx mod 10 ^ n))"
    by (rule ints_of_format_0d[OF c0 ob(5)]) simp
  show ?thesis
    by (simp only: render_def Let_def ints_of_string_append a b c sum.case)
qed


subsection \<open>What the constructor stores\<close>

lemma init_Inr:
  assumes "AdditionDataset_init np n sp = Inr ds"
  shows "\<exists>p t. fst (permutation np (RandomState np 1337) ((10 ^ n) ^ 2)) = Inr p
           \<and> num_test ((10 ^ n) ^ 2) = Inr t
           \<and> ds = \<lparr> split = sp, ndigit = n, vocab_size = 10, block_size = 3 * n,
                    ixes = (if sp = ''test'' then take t p else drop t p) \<rparr>"
  using assms
  by (auto simp: AdditionDataset_init_def Let_def split: sum.splits)

lemma contract_permutation:
  assumes "permutation_contract np" "fst (permutation np g num) = Inr p"
  shows "distinct p" "set p = {0..<int num}" "length p = num"
proof -
  from assms have m: "mset p = mset (map int [0..<num])"
    unfolding permutation_contract_def is_permutation_of_range_def
    by (metis (mono_tags, lifting) sum.simps(6))
  have "distinct (map int [0..<num])" by (simp add: distinct_map)
  with m show "distinct p" by (metis mset_eq_imp_distinct_iff)
  from m have "set p = set (map int [0..<num])" by (rule mset_eq_setD)
  then show "set p = {0..<int num}" by (simp add: image_int_atLeastLessThan)
  from m have "length p = length (map int [0..<num])" by (rule mset_eq_length)
  then show "length p = num" by simp
qed

lemma num_test_universe:
  assumes "num_test ((10 ^ n) ^ 2) = Inr t"
  shows "t = min (nat \<lfloor>(0.2::real) * 100 ^ n\<rfloor>) 1000" "t \<le> (10 ^ n) ^ 2"
proof -
  consider "n = 0" | "n = 1" | "2 \<le> n" by linarith
  then have "t = min (nat \<lfloor>(0.2::real) * 100 ^ n\<rfloor>) 1000 \<and> t \<le> (10 ^ n) ^ 2"
  proof cases
    case 1
    with assms show ?thesis by (simp add: num_test_1)
  next
    case 2
    with assms show ?thesis by (simp add: num_test_100)
  next
    case 3
    have "(10::nat) ^ 2 \<le> 10 ^ n" using 3 by (intro power_increasing) simp_all
    then have "((10::nat) ^ 2) ^ 2 \<le> (10 ^ n) ^ 2" by (rule power_mono) simp
    then have big: "10000 \<le> ((10::nat) ^ n) ^ 2" by simp
    with assms have t: "t = 1000" by (rule num_test_large[rotated -1])
    have "(100::real) ^ 2 \<le> 100 ^ n" using 3 by (intro power_increasing) simp_all
    then have "(1000::real) \<le> 0.2 * 100 ^ n" by simp
    then have "(1000::int) \<le> \<lfloor>(0.2::real) * 100 ^ n\<rfloor>" by (simp add: le_floor_iff)
    then have "1000 \<le> nat \<lfloor>(0.2::real) * 100 ^ n\<rfloor>" by linarith
    with t big show ?thesis by simp
  qed
  then show "t = min (nat \<lfloor>(0.2::real) * 100 ^ n\<rfloor>) 1000" "t \<le> (10 ^ n) ^ 2" by simp_all
qed

subsection \<open>The shape of an item\<close>

lemma array_index_nonneg:
  "0 \<le> k \<Longrightarrow> k < int (length xs) \<Longrightarrow> array_index xs k = Inr (xs ! nat k)"
  by (simp add: array_index_def Let_def)

lemma getitem_shape:
  assumes "ndigit ds = n" "0 < n" "0 \<le> k" "k < int (length (ixes ds))"
    and "ixes ds ! nat k = idx" "0 \<le> idx" "idx < 100 ^ n"
  shows "AdditionDataset_getitem ds k =
         Inr (zero_padded n (idx div 10 ^ n) @ zero_padded n (idx mod 10 ^ n)
                @ butlast (zero_padded (n + 1) (idx div 10 ^ n + idx mod 10 ^ n)),
              replicate (2 * n - 1) (- 100)
                @ zero_padded (n + 1) (idx div 10 ^ n + idx mod 10 ^ n))"
proof -
  define A where "A = zero_padded n (idx div 10 ^ n)"
  define B where "B = zero_padded n (idx mod 10 ^ n)"
  define C where "C = zero_padded (n + 1) (idx div 10 ^ n + idx mod 10 ^ n)"
  have lA: "length A = n" and lB: "length B = n" and lC: "length C = n + 1"
    by (simp_all add: A_def B_def C_def length_zero_padded)
  have Cne: "C \<noteq> []" using lC by auto
  have dix: "ints_of_string (render n idx) = Inr (A @ B @ C)"
    using render_tokens[OF assms(6,7,2)] by (simp add: A_def B_def C_def)
  have x: "butlast (A @ B @ C) = A @ B @ butlast C"
    using Cne by (simp add: butlast_append)
  have stop: "slice_stop (int n * 2 - 1) (length (drop 1 (A @ B @ C))) = 2 * n - 1"
    using assms(2) by (simp add: slice_stop_def lA lB lC nat_diff_distrib nat_mult_distrib)
  have "drop (2 * n - 1) (drop 1 (A @ B @ C)) = drop (2 * n) (A @ B @ C)"
    using assms(2) by (simp only: drop_drop) simp
  also have "\<dots> = C" by (simp add: lA lB)
  finally have y: "fill_prefix (drop 1 (A @ B @ C)) (int n * 2 - 1) (- 100)
                   = replicate (2 * n - 1) (- 100) @ C"
    by (simp only: fill_prefix_def stop)
  have "AdditionDataset_getitem ds k = Inr (A @ B @ butlast C, replicate (2 * n - 1) (- 100) @ C)"
    by (simp only: AdditionDataset_getitem_def array_index_nonneg[OF assms(3,4)] assms(5)
        sum.case dix Let_def x y assms(1))
  then show ?thesis by (simp only: A_def B_def C_def)
qed

subsection \<open>Evaluation on the sample generator\<close>

lemma reversing_contract: "permutation_contract reversing_numpy"
  by (simp add: permutation_contract_def reversing_numpy_def is_permutation_of_range_def)

lemma init_sample_test: "AdditionDataset_init reversing_numpy 1 ''test'' = Inr sample_test"
  by (simp add: AdditionDataset_init_def reversing_numpy_def num_test_100 sample_test_def
      take_rev drop_map rev_map[symmetric] del: upt_rec_numeral)

lemma init_sample_train: "AdditionDataset_init reversing_numpy 1 ''train'' = Inr sample_train"
  by (simp add: AdditionDataset_init_def reversing_numpy_def num_test_100 sample_train_def
      drop_rev take_map rev_map[symmetric] del: upt_rec_numeral)

lemmas getitem_eval = AdditionDataset_getitem_def array_index_def render_def format_0d_def
  dec_digits.simps digit_char_def Let_def int_of_char_def fill_prefix_def slice_stop_def

lemmas ints_of_string_eval = render_def format_0d_def dec_digits.simps digit_char_def Let_def
  int_of_char_def

subsection \<open>Items of a constructed dataset\<close>

lemma init_item_index:
  assumes "permutation_contract np"
    and "AdditionDataset_init np n sp = Inr ds"
    and "0 \<le> k" "k < int (AdditionDataset_len ds)"
  shows "ndigit ds = n" "block_size ds = 3 * n"
    "0 \<le> ixes ds ! nat k" "ixes ds ! nat k < 100 ^ n"
proof -
  from init_Inr[OF assms(2)] obtain p t where
    p: "fst (permutation np (RandomState np 1337) ((10 ^ n) ^ 2)) = Inr p"
    and ds: "ds = \<lparr> split = sp, ndigit = n, vocab_size = 10, block_size = 3 * n,
                    ixes = (if sp = ''test'' then take t p else drop t p) \<rparr>"
    by auto
  note perm = contract_permutation[OF assms(1) p]
  show "ndigit ds = n" "block_size ds = 3 * n" by (simp_all add: ds)
  have "set (ixes ds) \<subseteq> set p"
    by (auto simp: ds dest: in_set_takeD in_set_dropD)
  moreover have "ixes ds ! nat k \<in> set (ixes ds)"
    using assms(3,4) by (simp add: AdditionDataset_len_def)
  ultimately have "ixes ds ! nat k \<in> {0..<int ((10 ^ n) ^ 2)}"
    using perm(2) by auto
  moreover have "int ((10 ^ n) ^ 2) = 100 ^ n"
    by (simp add: power_mult_distrib[symmetric] power2_eq_square)
  ultimately show "0 \<le> ixes ds ! nat k" "ixes ds ! nat k < 100 ^ n" by simp_all
qed

lemma init_getitem:
  assumes "permutation_contract np"
    and "AdditionDataset_init np n sp = Inr ds"
    and "1 \<le> n" "0 \<le> k" "k < int (AdditionDataset_len ds)"
    and "idx = ixes ds ! nat k"
  shows "AdditionDataset_getitem ds k =
         Inr (zero_padded n (idx div 10 ^ n) @ zero_padded n (idx mod 10 ^ n)
                @ butlast (zero_padded (n + 1) (idx div 10 ^ n + idx mod 10 ^ n)),
              replicate (2 * n - 1) (- 100)
                @ zero_padded (n + 1) (idx div 10 ^ n + idx mod 10 ^ n))"
proof -
  note ii = init_item_index[OF assms(1,2,4,5)]
  from assms(3) have "0 < n" by simp
  moreover from assms(5) have "k < int (length (ixes ds))" by (simp add: AdditionDataset_len_def)
  ultimately show ?thesis
    using getitem_shape[OF ii(1) _ assms(4) _ assms(6)[symmetric]] ii(3,4) assms(6) by simp
qed

lemma decode_bijection:
  "bij_betw (\<lambda>idx::int. (idx div 10 ^ n, idx mod 10 ^ n))
     {0..<100 ^ n} ({0..<10 ^ n} \<times> {0..<10 ^ n})"
proof (rule bij_betw_byWitness[where f' = "\<lambda>(a, b). a * 10 ^ n + b"])
  show "\<forall>idx\<in>{0..<(100::int) ^ n}. (case (idx div 10 ^ n, idx mod 10 ^ n) of (a, b) \<Rightarrow> a * 10 ^ n + b) = idx"
    by (intro ballI) (simp only: prod.case div_mult_mod_eq)
  show "\<forall>ab\<in>{0..<(10::int) ^ n} \<times> {0..<(10::int) ^ n}.
          ((case ab of (a, b) \<Rightarrow> a * 10 ^ n + b) div 10 ^ n,
           (case ab of (a, b) \<Rightarrow> a * 10 ^ n + b) mod 10 ^ n) = ab"
    by auto
  show "(\<lambda>idx::int. (idx div 10 ^ n, idx mod 10 ^ n)) ` {0..<100 ^ n}
          \<subseteq> {0..<(10::int) ^ n} \<times> {0..<(10::int) ^ n}"
    using operands_bounds[where n = n] by auto
  show "(\<lambda>(a, b). a * 10 ^ n + b) ` ({0..<(10::int) ^ n} \<times> {0..<(10::int) ^ n})
          \<subseteq> {0..<(100::int) ^ n}"
  proof
    fix idx :: int
    assume "idx \<in> (\<lambda>(a, b). a * 10 ^ n + b) ` ({0..<10 ^ n} \<times> {0..<10 ^ n})"
    then obtain a b :: int where idx: "idx = a * 10 ^ n + b"
      and a: "0 \<le> a" "a < 10 ^ n" and b: "0 \<le> b" "b < 10 ^ n"
      by auto
    have sq: "(100::int) ^ n = 10 ^ n * 10 ^ n"
      by (simp add: power_mult_distrib[symmetric])
    from a(2) have "a + 1 \<le> 10 ^ n" by simp
    then have "(a + 1) * 10 ^ n \<le> 10 ^ n * 10 ^ n"
      by (intro mult_right_mono) simp_all
    then have "a * 10 ^ n + 10 ^ n \<le> 10 ^ n * 10 ^ n" by (simp add: algebra_simps)
    with b(2) have "idx < 100 ^ n" by (simp add: idx sq)
    moreover have "0 \<le> idx" using a(1) b(1) by (simp add: idx)
    ultimately show "idx \<in> {0..<100 ^ n}" by simp
  qed
qed

subsection \<open>The heap of generators\<close>

lemma init_heap_result:
  "fst (AdditionDataset_init_heap np n sp heap) = AdditionDataset_init np n sp"
  by (simp add: AdditionDataset_init_heap_def AdditionDataset_init_def new_RandomState_def
      call_permutation_def Let_def split: prod.splits sum.splits)

lemma init_heap_frame:
  "take (length heap) (snd (AdditionDataset_init_heap np n sp heap)) = heap"
  by (simp add: AdditionDataset_init_heap_def new_RandomState_def call_permutation_def
      Let_def split: prod.splits)

subsection \<open>Positions outside the array\<close>

lemma array_index_outside:
  "k < - int (length xs) \<or> int (length xs) \<le> k \<Longrightarrow>
   array_index xs k = (if 2 ^ 63 \<le> k \<and> k < 2 ^ 64 then Inl OverflowError else Inl IndexError)"
  by (auto simp: array_index_def Let_def)

lemma array_index_negative:
  "- int (length xs) \<le> k \<Longrightarrow> k < 0 \<Longrightarrow> array_index xs k = array_index xs (k + int (length xs))"
  by (simp add: array_index_def Let_def)

subsection \<open>Two-digit evaluation\<close>

lemma num_test_10000: "num_test 10000 = Inr 1000"
  using num_test_returns[of 10000] num_test_large[of 10000] by simp

lemma init_sample_train2: "AdditionDataset_init reversing_numpy 2 ''train'' = Inr sample_train2"
  by (simp add: AdditionDataset_init_def reversing_numpy_def num_test_10000 sample_train2_def
      drop_rev take_map rev_map[symmetric] del: upt_rec_numeral)

lemma sample_train2_639: "ixes sample_train2 ! nat 8360 = 639" "ixes sample_train2 ! 8360 = 639"
  by (simp_all add: sample_train2_def rev_nth del: upt_rec_numeral)

lemma zero_padded_values:
  "zero_padded 2 6 = [0, 6]" "zero_padded 2 39 = [3, 9]"
  "zero_padded (Suc (Suc (Suc 0))) 45 = [0, 4, 5]"
  by (simp_all add: zero_padded_def upt_rec)

section \<open>The properties of the specification\<close>

text \<open>
  C1. For every digit width, the train and the test dataset constructed with the same
  width partition the universe of indices: their sizes add up to \<open>100^n\<close>, the stored
  indices of the two splits are disjoint, and together they are exactly \<open>[0, 100^n)\<close>.
  The library's permutation contract is the one hypothesis besides the two constructions.
\<close>

theorem train_test_partition:
  assumes "permutation_contract np"
    and "AdditionDataset_init np n ''train'' = Inr tr"
    and "AdditionDataset_init np n ''test'' = Inr te"
  shows "AdditionDataset_len tr + AdditionDataset_len te = 100 ^ n
       \<and> set (ixes tr) \<inter> set (ixes te) = {}
       \<and> set (ixes tr) \<union> set (ixes te) = {0..<100 ^ n}"
proof -
  from init_Inr[OF assms(2)] obtain p t where
    p: "fst (permutation np (RandomState np 1337) ((10 ^ n) ^ 2)) = Inr p"
    and t: "num_test ((10 ^ n) ^ 2) = Inr t"
    and tr: "ixes tr = drop t p"
    by auto
  from init_Inr[OF assms(3)] p t have te: "ixes te = take t p"
    by auto
  note perm = contract_permutation[OF assms(1) p]
  have sq: "((10::nat) ^ n) ^ 2 = 100 ^ n"
    by (simp add: power_mult_distrib[symmetric] power2_eq_square)
  have "length (drop t p) + length (take t p) = length p" by simp
  then have size: "AdditionDataset_len tr + AdditionDataset_len te = 100 ^ n"
    by (simp only: AdditionDataset_len_def tr te perm(3) sq)
  have "distinct (take t p @ drop t p)" using perm(1) by simp
  then have disj: "set (ixes tr) \<inter> set (ixes te) = {}"
    unfolding tr te by (auto simp only: distinct_append)
  have "set (take t p @ drop t p) = set p" by simp
  then have "set (ixes tr) \<union> set (ixes te) = set p"
    unfolding tr te by (auto simp only: set_append)
  then have cover: "set (ixes tr) \<union> set (ixes te) = {0..<100 ^ n}"
    by (simp add: perm(2) sq)
  from size disj cover show ?thesis by blast
qed

theorem train_test_partition_witness:
  "AdditionDataset_len sample_train + AdditionDataset_len sample_test = 100 ^ 1
   \<and> set (ixes sample_train) \<inter> set (ixes sample_test) = {}
   \<and> set (ixes sample_train) \<union> set (ixes sample_test) = {0..<100 ^ 1}"
  by (rule train_test_partition[OF reversing_contract init_sample_train init_sample_test])

text \<open>
  C2. Round trip. For a digit width \<open>n \<ge> 1\<close>, either split and a position \<open>k\<close> in
  \<open>[0, size)\<close>, the item \<open>(x, y)\<close> at \<open>k\<close> is returned, the number read from the first \<open>n\<close>
  tokens of \<open>x\<close> is \<open>a = idx div 10^n\<close> and the one read from the next \<open>n\<close> tokens is
  \<open>b = idx mod 10^n\<close>, and the zero-padded rendering of \<open>a + b\<close> in \<open>n + 1\<close> digits is the
  last \<open>n + 1\<close> tokens of \<open>x\<close>'s first token followed by \<open>y\<close>, which are also the last
  \<open>n + 1\<close> tokens of the rendered sequence. The decoding \<open>idx \<mapsto> (idx div 10^n, idx mod 10^n)\<close>
  is a bijection from \<open>[0, 100^n)\<close> onto \<open>[0, 10^n) \<times> [0, 10^n)\<close>.
\<close>

theorem round_trip:
  assumes "permutation_contract np"
    and "AdditionDataset_init np n sp = Inr ds"
    and "1 \<le> n" "0 \<le> k" "k < int (AdditionDataset_len ds)"
  shows "(\<exists>x y dix. AdditionDataset_getitem ds k = Inr (x, y)
            \<and> int_of_tokens (take n x) = ixes ds ! nat k div 10 ^ n
            \<and> int_of_tokens (take n (drop n x)) = ixes ds ! nat k mod 10 ^ n
            \<and> zero_padded (n + 1) (int_of_tokens (take n x) + int_of_tokens (take n (drop n x)))
                = last_tokens (n + 1) (hd x # y)
            \<and> ints_of_string (render (ndigit ds) (ixes ds ! nat k)) = Inr dix
            \<and> last_tokens (n + 1) dix = last_tokens (n + 1) (hd x # y))
       \<and> bij_betw (\<lambda>idx::int. (idx div 10 ^ n, idx mod 10 ^ n))
            {0..<100 ^ n} ({0..<10 ^ n} \<times> {0..<10 ^ n})"
proof -
  define idx where "idx = ixes ds ! nat k"
  define A where "A = zero_padded n (idx div 10 ^ n)"
  define B where "B = zero_padded n (idx mod 10 ^ n)"
  define C where "C = zero_padded (n + 1) (idx div 10 ^ n + idx mod 10 ^ n)"
  define x where "x = A @ B @ butlast C"
  define y where "y = replicate (2 * n - 1) (- 100 :: int) @ C"
  have lA: "length A = n" and lB: "length B = n" and lC: "length C = n + 1"
    by (simp_all add: A_def B_def C_def length_zero_padded)
  note ii = init_item_index[OF assms(1,2,4,5)]
  note ob = operands_bounds[OF ii(3,4)]
  have item: "AdditionDataset_getitem ds k = Inr (x, y)"
    using init_getitem[OF assms idx_def] by (simp only: x_def y_def A_def B_def C_def)
  have tA: "take n x = A" by (simp add: x_def lA)
  have tB: "take n (drop n x) = B" by (simp add: x_def lA lB)
  have a: "int_of_tokens (take n x) = idx div 10 ^ n"
    using ob(1,2) by (simp add: tA A_def int_of_tokens_zero_padded idx_def)
  have b: "int_of_tokens (take n (drop n x)) = idx mod 10 ^ n"
    by (simp add: tB B_def int_of_tokens_zero_padded)
  have "length (hd x # y) - (n + 1) = Suc (2 * n - 1)"
    using assms(3) by (simp add: y_def lC)
  then have "last_tokens (n + 1) (hd x # y) = C"
    by (simp add: last_tokens_def y_def)
  then have c: "zero_padded (n + 1) (int_of_tokens (take n x) + int_of_tokens (take n (drop n x)))
                = last_tokens (n + 1) (hd x # y)"
    by (simp only: a b C_def)
  from assms(3) have npos: "0 < n" by simp
  have dix: "ints_of_string (render (ndigit ds) (ixes ds ! nat k)) = Inr (A @ B @ C)"
    using render_tokens[OF ii(3,4) npos] by (simp add: ii(1) A_def B_def C_def idx_def)
  have "length (A @ B @ C) - (n + 1) = n + n" by (simp add: lA lB lC)
  then have "last_tokens (n + 1) (A @ B @ C) = C"
    by (simp add: last_tokens_def lA lB)
  with \<open>last_tokens (n + 1) (hd x # y) = C\<close>
  have d: "last_tokens (n + 1) (A @ B @ C) = last_tokens (n + 1) (hd x # y)" by simp
  from item a b c dix d have "\<exists>x y dix. AdditionDataset_getitem ds k = Inr (x, y)
            \<and> int_of_tokens (take n x) = ixes ds ! nat k div 10 ^ n
            \<and> int_of_tokens (take n (drop n x)) = ixes ds ! nat k mod 10 ^ n
            \<and> zero_padded (n + 1) (int_of_tokens (take n x) + int_of_tokens (take n (drop n x)))
                = last_tokens (n + 1) (hd x # y)
            \<and> ints_of_string (render (ndigit ds) (ixes ds ! nat k)) = Inr dix
            \<and> last_tokens (n + 1) dix = last_tokens (n + 1) (hd x # y)"
    unfolding idx_def by blast
  with decode_bijection[of n] show ?thesis by blast
qed

theorem round_trip_witness:
  "AdditionDataset_getitem sample_test 0 = Inr ([9, 9, 1], [- 100, 1, 8])
   \<and> ints_of_string (render (ndigit sample_test) (ixes sample_test ! nat 0)) = Inr [9, 9, 1, 8]
   \<and> last_tokens (1 + 1) [9, 9, 1, 8] = last_tokens (1 + 1) (hd [9, 9, 1] # [- 100, 1, 8])
   \<and> int_of_tokens (take 1 [9, 9, 1]) = ixes sample_test ! nat 0 div 10 ^ 1
   \<and> int_of_tokens (take 1 (drop 1 [9, 9, 1])) = ixes sample_test ! nat 0 mod 10 ^ 1
   \<and> zero_padded (1 + 1) (int_of_tokens (take 1 [9, 9, 1]) + int_of_tokens (take 1 (drop 1 [9, 9, 1])))
       = last_tokens (1 + 1) (hd [9, 9, 1] # [- 100, 1, 8])
   \<and> bij_betw (\<lambda>idx::int. (idx div 10 ^ 1, idx mod 10 ^ 1))
        {0..<100 ^ 1} ({0..<10 ^ 1} \<times> {0..<10 ^ 1})"
proof -
  have "0 \<le> (0::int)" "(0::int) < int (AdditionDataset_len sample_test)" "(1::nat) \<le> 1"
    by (simp_all add: AdditionDataset_len_def sample_test_def)
  from round_trip[OF reversing_contract init_sample_test this(3,1,2)]
  show ?thesis
    by (simp add: getitem_eval sample_test_def int_of_tokens_def last_tokens_def)
qed

text \<open>
  C3. Masking. For a digit width \<open>n \<ge> 1\<close>, either split and a position \<open>k\<close> in
  \<open>[0, size)\<close>, the target \<open>y\<close> at \<open>k\<close> has \<open>3n\<close> entries, its first \<open>2n - 1\<close> entries are
  the sentinel \<open>-100\<close>, and none of the others is.
\<close>

theorem target_masking:
  assumes "permutation_contract np"
    and "AdditionDataset_init np n sp = Inr ds"
    and "1 \<le> n" "0 \<le> k" "k < int (AdditionDataset_len ds)"
  shows "\<exists>x y. AdditionDataset_getitem ds k = Inr (x, y)
           \<and> length y = 3 * n
           \<and> take (2 * n - 1) y = replicate (2 * n - 1) (- 100)
           \<and> - 100 \<notin> set (drop (2 * n - 1) y)"
proof -
  define idx where "idx = ixes ds ! nat k"
  have "- 100 \<notin> set (zero_padded w v)" for w v
    using zero_padded_digit[of "- 100" w v] by auto
  with init_getitem[OF assms idx_def] assms(3) show ?thesis
    by (simp add: length_zero_padded)
qed

theorem target_masking_witness:
  "AdditionDataset_getitem sample_test 0 = Inr ([9, 9, 1], [- 100, 1, 8])
   \<and> (\<exists>x y. AdditionDataset_getitem sample_test 0 = Inr (x, y)
           \<and> length y = 3 * 1
           \<and> take (2 * 1 - 1) y = replicate (2 * 1 - 1) (- 100)
           \<and> - 100 \<notin> set (drop (2 * 1 - 1) y))"
proof -
  have "0 \<le> (0::int)" "(0::int) < int (AdditionDataset_len sample_test)" "(1::nat) \<le> 1"
    by (simp_all add: AdditionDataset_len_def sample_test_def)
  from target_masking[OF reversing_contract init_sample_test this(3,1,2)]
  show ?thesis by (simp add: getitem_eval sample_test_def)
qed

text \<open>
  C4. Positions out of range. On a constructed dataset the item query fails for every
  \<open>k \<ge> size\<close> and every \<open>k < -size\<close>: with the out-of-range error IndexError, except for
  \<open>k\<close> in \<open>[2^63, 2^64)\<close>, where it is the OverflowError of the index conversion. A
  negative \<open>k\<close> in \<open>[-size, 0)\<close> is not out of range for the array: the query returns the
  item of position \<open>size + k\<close>, and for \<open>n \<ge> 1\<close> it does not raise. The statement that
  every negative position fails does not hold: position \<open>-1\<close> of the one-digit test split
  is an item.
\<close>

theorem position_bounds:
  assumes "permutation_contract np"
    and "AdditionDataset_init np n sp = Inr ds"
  shows "(k < - int (AdditionDataset_len ds) \<or> int (AdditionDataset_len ds) \<le> k
            \<longrightarrow> AdditionDataset_getitem ds k
                  = (if 2 ^ 63 \<le> k \<and> k < 2 ^ 64 then Inl OverflowError else Inl IndexError))
       \<and> (- int (AdditionDataset_len ds) \<le> k \<and> k < 0
            \<longrightarrow> AdditionDataset_getitem ds k
                  = AdditionDataset_getitem ds (k + int (AdditionDataset_len ds))
              \<and> (1 \<le> n \<longrightarrow> \<not> isl (AdditionDataset_getitem ds k)))"
proof -
  have out: "AdditionDataset_getitem ds k
             = (if 2 ^ 63 \<le> k \<and> k < 2 ^ 64 then Inl OverflowError else Inl IndexError)"
    if "k < - int (AdditionDataset_len ds) \<or> int (AdditionDataset_len ds) \<le> k"
  proof -
    from that have "array_index (ixes ds) k
        = (if 2 ^ 63 \<le> k \<and> k < 2 ^ 64 then Inl OverflowError else Inl IndexError)"
      unfolding AdditionDataset_len_def by (rule array_index_outside)
    then show ?thesis by (simp add: AdditionDataset_getitem_def)
  qed
  have wrap: "AdditionDataset_getitem ds k
              = AdditionDataset_getitem ds (k + int (AdditionDataset_len ds))"
    if "- int (AdditionDataset_len ds) \<le> k" "k < 0"
    using that
    by (simp add: AdditionDataset_getitem_def AdditionDataset_len_def array_index_negative)
  have ok: "\<not> isl (AdditionDataset_getitem ds k)"
    if "- int (AdditionDataset_len ds) \<le> k" "k < 0" "1 \<le> n"
  proof -
    from that have "0 \<le> k + int (AdditionDataset_len ds)"
      "k + int (AdditionDataset_len ds) < int (AdditionDataset_len ds)" by simp_all
    from init_getitem[OF assms that(3) this refl] wrap[OF that(1,2)]
    show ?thesis by simp
  qed
  from out wrap ok show ?thesis by blast
qed

theorem position_bounds_witness:
  "AdditionDataset_getitem sample_test 20 = Inl IndexError
   \<and> AdditionDataset_getitem sample_test (- 21) = Inl IndexError
   \<and> AdditionDataset_getitem sample_test (2 ^ 63) = Inl OverflowError
   \<and> AdditionDataset_getitem sample_test (2 ^ 64) = Inl IndexError
   \<and> AdditionDataset_getitem sample_test (- 1) = AdditionDataset_getitem sample_test 19
   \<and> \<not> isl (AdditionDataset_getitem sample_test (- 1))"
proof -
  have len: "int (AdditionDataset_len sample_test) = 20"
    by (simp add: AdditionDataset_len_def sample_test_def)
  note pb = position_bounds[OF reversing_contract init_sample_test]
  have a: "AdditionDataset_getitem sample_test 20 = Inl IndexError"
    using pb[of 20] by (simp add: len)
  have b: "AdditionDataset_getitem sample_test (- 21) = Inl IndexError"
    using pb[of "- 21"] by (simp add: len)
  have c: "AdditionDataset_getitem sample_test (- 1) = AdditionDataset_getitem sample_test 19
           \<and> \<not> isl (AdditionDataset_getitem sample_test (- 1))"
    using pb[of "- 1"] by (auto simp: len)
  have d: "AdditionDataset_getitem sample_test (2 ^ 63) = Inl OverflowError"
    using pb[of "2 ^ 63"] by (simp add: len)
  have e: "AdditionDataset_getitem sample_test (2 ^ 64) = Inl IndexError"
    using pb[of "2 ^ 64"] by (simp add: len)
  from a b c d e show ?thesis by blast
qed

theorem negative_position_counterexample:
  "AdditionDataset_init reversing_numpy 1 ''test'' = Inr sample_test
   \<and> AdditionDataset_len sample_test = 20
   \<and> AdditionDataset_getitem sample_test (- 1) = Inr ([8, 0, 0], [- 100, 0, 8])
   \<and> AdditionDataset_getitem sample_test (- 1) \<noteq> Inl IndexError"
  using init_sample_test
  by (simp add: AdditionDataset_len_def getitem_eval sample_test_def)




text \<open>
  C6. The size of the test split is \<open>min(floor(0.2 * 100^n), 1000)\<close>; for \<open>n = 1\<close> the
  universe has 100 indices and the test split 20. The left side is computed by the
  double-precision product of the constructor, the right side in the reals.
\<close>

theorem test_split_size:
  assumes "permutation_contract np"
    and "AdditionDataset_init np n ''test'' = Inr te"
  shows "AdditionDataset_len te = min (nat \<lfloor>(0.2::real) * 100 ^ n\<rfloor>) 1000
       \<and> (n = 1 \<longrightarrow> (10 ^ n) ^ 2 = (100::nat) \<and> AdditionDataset_len te = 20)"
proof -
  from init_Inr[OF assms(2)] obtain p t where
    p: "fst (permutation np (RandomState np 1337) ((10 ^ n) ^ 2)) = Inr p"
    and t: "num_test ((10 ^ n) ^ 2) = Inr t"
    and te: "ixes te = take t p"
    by auto
  note perm = contract_permutation[OF assms(1) p]
  note nt = num_test_universe[OF t]
  have len: "AdditionDataset_len te = t"
    using nt(2) by (simp add: AdditionDataset_len_def te perm(3))
  have gen: "AdditionDataset_len te = min (nat \<lfloor>(0.2::real) * 100 ^ n\<rfloor>) 1000"
    using len nt(1) by simp
  have one: "AdditionDataset_len te = 20" if "n = 1"
    using t len that by (simp add: num_test_100)
  from gen one show ?thesis by simp
qed

theorem test_split_size_witness:
  "AdditionDataset_len sample_test = min (nat \<lfloor>(0.2::real) * 100 ^ 1\<rfloor>) 1000
   \<and> ((10::nat) ^ 1) ^ 2 = 100 \<and> AdditionDataset_len sample_test = 20"
  using test_split_size[OF reversing_contract init_sample_test] by simp

text \<open>
  C7. Determinism. Every construction allocates a generator of its own, seeded with 1337,
  and draws the permutation from it. Whatever generator objects exist when a dataset is
  constructed, and in whatever states (so also after earlier constructions), the same
  digit width and split selector give the same result: the same stored sequence of
  indices, position by position. The result is the one computed from the generator state
  of seed 1337 alone, and the generator objects that existed before are left as they were.
\<close>

theorem construction_deterministic:
  "fst (AdditionDataset_init_heap np n sp ha) = fst (AdditionDataset_init_heap np n sp hb)
   \<and> fst (AdditionDataset_init_heap np n sp (snd (AdditionDataset_init_heap np m sq ha)))
       = fst (AdditionDataset_init_heap np n sp ha)
   \<and> fst (AdditionDataset_init_heap np n sp ha) = AdditionDataset_init np n sp
   \<and> take (length ha) (snd (AdditionDataset_init_heap np n sp ha)) = ha"
proof -
  have a: "fst (AdditionDataset_init_heap np n sp h) = AdditionDataset_init np n sp" for h
    by (rule init_heap_result)
  have "fst (AdditionDataset_init_heap np n sp ha) = fst (AdditionDataset_init_heap np n sp hb)"
    by (simp only: a)
  moreover have "fst (AdditionDataset_init_heap np n sp
                        (snd (AdditionDataset_init_heap np m sq ha)))
                 = fst (AdditionDataset_init_heap np n sp ha)"
    by (simp only: a)
  moreover note a[of ha] init_heap_frame[of ha np n sp]
  ultimately show ?thesis by blast
qed

theorem construction_deterministic_witness:
  "fst (AdditionDataset_init_heap reversing_numpy 1 ''train'' []) = Inr sample_train
   \<and> fst (AdditionDataset_init_heap reversing_numpy 1 ''train'' [5, 7]) = Inr sample_train
   \<and> fst (AdditionDataset_init_heap reversing_numpy 1 ''train''
             (snd (AdditionDataset_init_heap reversing_numpy 1 ''test'' [5, 7])))
       = Inr sample_train"
proof -
  note d = construction_deterministic[where np = reversing_numpy and n = 1
      and sp = "''train''" and m = 1 and sq = "''test''"]
  have e: "AdditionDataset_init reversing_numpy 1 ''train'' = Inr sample_train"
    by (rule init_sample_train)
  have "fst (AdditionDataset_init_heap reversing_numpy 1 ''train'' []) = Inr sample_train"
    using d[where ha = "[]" and hb = "[]"] e by metis
  moreover have "fst (AdditionDataset_init_heap reversing_numpy 1 ''train'' [5, 7])
                 = Inr sample_train"
    using d[where ha = "[5, 7]" and hb = "[]"] e by metis
  moreover have "fst (AdditionDataset_init_heap reversing_numpy 1 ''train''
             (snd (AdditionDataset_init_heap reversing_numpy 1 ''test'' [5, 7])))
       = Inr sample_train"
    using d[where ha = "[5, 7]" and hb = "[]"] e by metis
  ultimately show ?thesis by blast
qed

text \<open>
  C8. Rendering widths. For a digit width \<open>n \<ge> 1\<close> and a valid position, the rendered
  sequence is the operands \<open>a\<close> and \<open>b\<close> zero-padded to \<open>n\<close> digits each, followed by the
  sum \<open>a + b\<close> zero-padded to \<open>n + 1\<close> digits. For \<open>n = 2\<close> the problem \<open>6 + 39 = 45\<close>
  renders as \<open>[0,6,3,9,0,4,5]\<close>, with \<open>x = [0,6,3,9,0,4]\<close> and
  \<open>y = [s,s,s,0,4,5]\<close> for the sentinel \<open>s = -100\<close>: \<open>y\<close> has six entries, not the seven
  of \<open>[s,s,s,9,0,4,5]\<close>.
\<close>

theorem rendering_widths:
  assumes "permutation_contract np"
    and "AdditionDataset_init np n sp = Inr ds"
    and "1 \<le> n" "0 \<le> k" "k < int (AdditionDataset_len ds)"
    and "a = ixes ds ! nat k div 10 ^ n" "b = ixes ds ! nat k mod 10 ^ n"
  shows "ints_of_string (render (ndigit ds) (ixes ds ! nat k))
           = Inr (zero_padded n a @ zero_padded n b @ zero_padded (n + 1) (a + b))
       \<and> length (zero_padded n a) = n \<and> length (zero_padded n b) = n
       \<and> length (zero_padded (n + 1) (a + b)) = n + 1
       \<and> (n = 2 \<and> a = 6 \<and> b = 39 \<longrightarrow>
            ints_of_string (render (ndigit ds) (ixes ds ! nat k)) = Inr [0, 6, 3, 9, 0, 4, 5]
          \<and> AdditionDataset_getitem ds k
              = Inr ([0, 6, 3, 9, 0, 4], [- 100, - 100, - 100, 0, 4, 5]))"
proof -
  define idx where "idx = ixes ds ! nat k"
  note ii = init_item_index[OF assms(1,2,4,5)]
  from assms(3) have npos: "0 < n" by simp
  have r: "ints_of_string (render (ndigit ds) (ixes ds ! nat k))
           = Inr (zero_padded n a @ zero_padded n b @ zero_padded (n + 1) (a + b))"
    using render_tokens[OF ii(3,4) npos] by (simp add: ii(1) assms(6,7))
  have g: "AdditionDataset_getitem ds k =
           Inr (zero_padded n a @ zero_padded n b @ butlast (zero_padded (n + 1) (a + b)),
                replicate (2 * n - 1) (- 100) @ zero_padded (n + 1) (a + b))"
    using init_getitem[OF assms(1-5) idx_def] by (simp add: idx_def assms(6,7))
  have ex: "ints_of_string (render (ndigit ds) (ixes ds ! nat k)) = Inr [0, 6, 3, 9, 0, 4, 5]
          \<and> AdditionDataset_getitem ds k
              = Inr ([0, 6, 3, 9, 0, 4], [- 100, - 100, - 100, 0, 4, 5])"
    if "n = 2" "a = 6" "b = 39"
    using r g that by (simp add: zero_padded_values numeral_3_eq_3)
  from r ex show ?thesis by (simp add: length_zero_padded)
qed

theorem rendering_widths_witness:
  "ints_of_string (render (ndigit sample_train2) (ixes sample_train2 ! nat 8360))
           = Inr [0, 6, 3, 9, 0, 4, 5]
       \<and> AdditionDataset_getitem sample_train2 8360
              = Inr ([0, 6, 3, 9, 0, 4], [- 100, - 100, - 100, 0, 4, 5])"
proof -
  have h: "(1::nat) \<le> 2" "0 \<le> (8360::int)" "(8360::int) < int (AdditionDataset_len sample_train2)"
    "(6::int) = ixes sample_train2 ! nat 8360 div 10 ^ 2"
    "(39::int) = ixes sample_train2 ! nat 8360 mod 10 ^ 2"
    by (simp_all add: sample_train2_639) (simp add: AdditionDataset_len_def sample_train2_def)
  from rendering_widths[OF reversing_contract init_sample_train2 h]
  have "(2::nat) = 2 \<and> (6::int) = 6 \<and> (39::int) = 39 \<longrightarrow>
          ints_of_string (render (ndigit sample_train2) (ixes sample_train2 ! nat 8360))
            = Inr [0, 6, 3, 9, 0, 4, 5]
        \<and> AdditionDataset_getitem sample_train2 8360
            = Inr ([0, 6, 3, 9, 0, 4], [- 100, - 100, - 100, 0, 4, 5])"
    by blast
  then show ?thesis by simp
qed

theorem rendering_example_counterexample:
  "AdditionDataset_init reversing_numpy 2 ''train'' = Inr sample_train2
   \<and> ixes sample_train2 ! nat 8360 div 10 ^ 2 = 6
   \<and> ixes sample_train2 ! nat 8360 mod 10 ^ 2 = 39
   \<and> AdditionDataset_getitem sample_train2 8360
       \<noteq> Inr ([0, 6, 3, 9, 0, 4], [- 100, - 100, - 100, 9, 0, 4, 5])"
proof -
  have k: "0 \<le> (8360::int)" "(8360::int) < int (length (ixes sample_train2))"
    by (simp_all add: sample_train2_def)
  have n: "ndigit sample_train2 = 2" by (simp add: sample_train2_def)
  have "AdditionDataset_getitem sample_train2 8360
        = Inr ([0, 6, 3, 9, 0, 4], [- 100, - 100, - 100, 0, 4, 5])"
    using getitem_shape[OF n _ k sample_train2_639(1)]
    by (simp add: zero_padded_values numeral_3_eq_3)
  then show ?thesis
    by (simp add: init_sample_train2 sample_train2_639)
qed

text \<open>
  C9. Lengths. For a digit width \<open>n \<ge> 1\<close> and a valid position, the rendered sequence
  has \<open>3n + 1\<close> tokens, \<open>x\<close> and \<open>y\<close> have \<open>3n\<close> tokens each, and the dataset's
  \<open>block_size\<close> is \<open>3n\<close>.
\<close>

theorem item_lengths:
  assumes "permutation_contract np"
    and "AdditionDataset_init np n sp = Inr ds"
    and "1 \<le> n" "0 \<le> k" "k < int (AdditionDataset_len ds)"
  shows "\<exists>dix x y. ints_of_string (render (ndigit ds) (ixes ds ! nat k)) = Inr dix
           \<and> AdditionDataset_getitem ds k = Inr (x, y)
           \<and> length dix = 3 * n + 1 \<and> length x = 3 * n \<and> length y = 3 * n
           \<and> block_size ds = 3 * n"
proof -
  define idx where "idx = ixes ds ! nat k"
  note ii = init_item_index[OF assms(1,2,4,5)]
  from assms(3) have npos: "0 < n" by simp
  have "ints_of_string (render (ndigit ds) (ixes ds ! nat k)) =
        Inr (zero_padded n (idx div 10 ^ n) @ zero_padded n (idx mod 10 ^ n)
             @ zero_padded (n + 1) (idx div 10 ^ n + idx mod 10 ^ n))"
    using render_tokens[OF _ _ npos, of idx] ii by (simp add: idx_def)
  moreover note init_getitem[OF assms idx_def]
  ultimately show ?thesis
    using npos ii(2) by (simp add: length_zero_padded)
qed

theorem item_lengths_witness:
  "ints_of_string (render (ndigit sample_test) (ixes sample_test ! nat 0)) = Inr [9, 9, 1, 8]
   \<and> AdditionDataset_getitem sample_test 0 = Inr ([9, 9, 1], [- 100, 1, 8])
   \<and> length [9, 9, 1, 8 :: int] = 3 * 1 + 1
   \<and> length [9, 9, 1 :: int] = 3 * 1 \<and> length [- 100, 1, 8 :: int] = 3 * 1
   \<and> block_size sample_test = 3 * 1"
proof -
  have "0 \<le> (0::int)" "(0::int) < int (AdditionDataset_len sample_test)" "(1::nat) \<le> 1"
    by (simp_all add: AdditionDataset_len_def sample_test_def)
  from item_lengths[OF reversing_contract init_sample_test this(3,1,2)]
  show ?thesis by (simp add: getitem_eval ints_of_string_eval sample_test_def)
qed

text \<open>
  C10. The split selector is not validated. With any selector other than the string
  \<open>test\<close>, construction returns what the selector \<open>train\<close> returns, up to the stored
  selector itself: the train split's index sequence, and no error.
\<close>

theorem split_selector_unchecked:
  assumes "sp \<noteq> ''test''"
    and "AdditionDataset_init np n ''train'' = Inr tr"
  shows "AdditionDataset_init np n sp = Inr (tr\<lparr>split := sp\<rparr>)"
  using assms
  by (auto simp: AdditionDataset_init_def Let_def split: sum.splits)

theorem split_selector_unchecked_witness:
  "''Test'' \<noteq> ''test''
   \<and> AdditionDataset_init reversing_numpy 1 ''Test'' = Inr (sample_train\<lparr>split := ''Test''\<rparr>)"
proof -
  have ne: "''Test'' \<noteq> ''test''" by simp
  from split_selector_unchecked[OF ne init_sample_train] ne show ?thesis by simp
qed

section \<open>Further properties\<close>

text \<open>
  The constructor returns. The conversion of \<open>num\<close> to a double is the only \<open>raise\<close> of
  the constructor's own code. Up to \<open>ndigit = 154\<close>, where \<open>num = 10^308\<close> is still below
  the largest double, it does not happen: whenever the library's permutation returns, so
  does the constructor, for every split selector.
\<close>

theorem init_returns:
  assumes "n \<le> 154"
    and "fst (permutation np (RandomState np 1337) ((10 ^ n) ^ 2)) = Inr p"
  shows "\<exists>ds. AdditionDataset_init np n sp = Inr ds"
proof -
  have "((10::nat) ^ n) ^ 2 = 10 ^ (2 * n)" by (simp add: power_mult mult.commute)
  also have "\<dots> \<le> 10 ^ 308" using assms(1) by (intro power_increasing) simp_all
  finally have "num_test ((10 ^ n) ^ 2) = Inr (min (float_to_int (mul_0_2 (round53 ((10 ^ n) ^ 2)))) 1000)"
    by (rule num_test_returns)
  with assms(2) show ?thesis
    by (simp add: AdditionDataset_init_def Let_def)
qed

theorem init_returns_witness:
  "\<exists>ds. AdditionDataset_init reversing_numpy 154 ''train'' = Inr ds"
proof -
  have "(154::nat) \<le> 154" by simp
  moreover have "fst (permutation reversing_numpy (RandomState reversing_numpy 1337)
                    ((10 ^ 154) ^ 2)) = Inr (rev (map int [0..<(10 ^ 154) ^ 2]))"
    by (simp add: reversing_numpy_def)
  ultimately show ?thesis by (rule init_returns)
qed

text \<open>
  Beyond that width the conversion overflows: if the permutation call returned, the
  constructor would raise OverflowError.
\<close>

lemma init_overflows:
  assumes "155 \<le> n"
    and "fst (permutation np (RandomState np 1337) ((10 ^ n) ^ 2)) = Inr p"
  shows "AdditionDataset_init np n sp = Inl OverflowError"
proof -
  have "(10::nat) ^ 310 \<le> 10 ^ (2 * n)" using assms(1) by (intro power_increasing) simp_all
  also have "\<dots> = (10 ^ n) ^ 2" by (simp add: power_mult mult.commute)
  finally have "3 * 10 ^ 310 \<le> 3 * ((10::nat) ^ n) ^ 2" by simp
  also have "\<dots> \<le> 4 * round53 ((10 ^ n) ^ 2)" using round53_bounds by blast
  finally have "2 ^ 1024 \<le> round53 ((10 ^ n) ^ 2)" by simp
  then have "num_test ((10 ^ n) ^ 2) = Inl OverflowError"
    by (simp add: num_test_def int_to_float_def)
  with assms(2) show ?thesis
    by (simp add: AdditionDataset_init_def Let_def)
qed

end
